theory Spec2Isabelle
  imports Main
begin

section \<open>The JavaScript builtins the crawler calls\<close>

text \<open>
  The service module calls two builtins of the JavaScript runtime: the \<^verbatim>\<open>RegExp\<close>
  constructor (followed by \<^verbatim>\<open>test\<close>) and the \<^verbatim>\<open>URL\<close> constructor
  (followed by \<^verbatim>\<open>href\<close>). Neither is code of the repository, so every function of
  the model takes them as a parameter:
  \<^item> \<open>RegExp js p\<close> is \<^verbatim>\<open>new RegExp(p)\<close>: \<open>None\<close> when the constructor throws a
    SyntaxError, otherwise \<open>Some t\<close> where \<open>t s\<close> is \<^verbatim>\<open>regex.test(s)\<close>. The source
    passes no flags, so \<^verbatim>\<open>test\<close> keeps no state between calls.
  \<^item> \<open>URL js u b\<close> is \<^verbatim>\<open>new URL(u, b).href\<close>: \<open>None\<close> when the constructor throws a
    TypeError, otherwise the serialised URL.

  The theorems on the crawler hold for every \<open>js\<close>. The claims that are about the
  \<^verbatim>\<open>URL\<close> constructor itself are settled on a model of it, \<open>standardURL\<close> below.
\<close>

record js_builtins =
  RegExp :: "string \<Rightarrow> (string \<Rightarrow> bool) option"
  URL :: "string \<Rightarrow> string \<Rightarrow> string option"

datatype js_error = SyntaxError | TypeError

section \<open>URL classification\<close>

text \<open>
  \<^verbatim>\<open>patterns.some((pattern) => { const regex = new RegExp(pattern); return regex.test(url); })\<close>
  The callback runs on the patterns in order and \<^verbatim>\<open>some\<close> stops at the first
  \<^verbatim>\<open>true\<close>; a pattern is compiled only when the callback reaches it, and a
  SyntaxError of the constructor leaves \<^verbatim>\<open>some\<close> through the caller.
\<close>

fun isProductUrl :: "js_builtins \<Rightarrow> string \<Rightarrow> string list \<Rightarrow> js_error + bool" where
  "isProductUrl js u [] = Inr False"
| "isProductUrl js u (pattern # patterns) =
     (case RegExp js pattern of
        None \<Rightarrow> Inl SyntaxError
      | Some regex \<Rightarrow> if regex u then Inr True else isProductUrl js u patterns)"

fun isListingUrl :: "js_builtins \<Rightarrow> string \<Rightarrow> string list \<Rightarrow> js_error + bool" where
  "isListingUrl js u [] = Inr False"
| "isListingUrl js u (pattern # patterns) =
     (case RegExp js pattern of
        None \<Rightarrow> Inl SyntaxError
      | Some regex \<Rightarrow> if regex u then Inr True else isListingUrl js u patterns)"

section \<open>URL normalisation\<close>

text \<open>
  \<^verbatim>\<open>try { return new URL(url, baseUrl).href; } catch (error) { return ""; }\<close>
  The function never throws: the TypeError of the constructor is caught and the empty
  string returned.
\<close>

definition normalizeUrl :: "js_builtins \<Rightarrow> string \<Rightarrow> string \<Rightarrow> string" where
  "normalizeUrl js u baseUrl = (case URL js u baseUrl of Some href \<Rightarrow> href | None \<Rightarrow> [])"

section \<open>The crawler object\<close>

text \<open>
  \<open>maxPages\<close> is optional in the interface: \<open>None\<close> is a configuration without the
  property. Its values are JavaScript numbers; the model takes them as integers, which
  the doubling below keeps exact for every count a crawl can reach.
\<close>

record CrawlerConfig =
  startUrls :: "string list"
  productListingUrlPatterns :: "string list"
  productCardSelectors :: "string list"
  productUrlPatterns :: "string list"
  paginationSelectors :: "string list"
  productLinkSelectors :: "string list"
  maxPages :: "int option"

record EcommerceCrawler =
  config :: CrawlerConfig
  processedUrls :: "string set"
  pageCount :: int

text \<open>
  \<^verbatim>\<open>this.config = { maxPages: 1000, ...config };\<close> with the two field initialisers
  \<^verbatim>\<open>processedUrls = new Set()\<close> and \<^verbatim>\<open>pageCount = 0\<close>. The constructor compiles
  nothing and cannot throw.
\<close>

definition "constructor" :: "CrawlerConfig \<Rightarrow> EcommerceCrawler" where
  "constructor cfg =
     \<lparr>config = cfg\<lparr>maxPages := (case maxPages cfg of None \<Rightarrow> Some 1000 | Some n \<Rightarrow> Some n)\<rparr>,
      processedUrls = {},
      pageCount = 0\<rparr>"

section \<open>The default handler: link expansion\<close>

text \<open>
  A request as the engine hands it to the callback: its URL and the label that
  \<^verbatim>\<open>enqueueLinks\<close> was given.
\<close>

record Request =
  url :: string
  label :: "string option"

text \<open>
  The callback given to \<^verbatim>\<open>enqueueLinks\<close>. \<open>Inr (Some req)\<close> is \<^verbatim>\<open>return req\<close>,
  \<open>Inr None\<close> is \<^verbatim>\<open>return false\<close>, \<open>Inl e\<close> is an exception leaving the callback.
  \<^verbatim>\<open>&&\<close> evaluates \<^verbatim>\<open>isListingUrl\<close> only when the URL is not yet in the set, and
  the set is written only after \<^verbatim>\<open>isListingUrl\<close> has returned true.
\<close>

definition transformRequestFunction ::
  "js_builtins \<Rightarrow> string \<Rightarrow> EcommerceCrawler \<Rightarrow> Request
     \<Rightarrow> (js_error + Request option) \<times> EcommerceCrawler" where
  "transformRequestFunction js baseUrl this req =
     (let u = normalizeUrl js (url req) baseUrl in
      if u \<in> processedUrls this then (Inr None, this)
      else (case isListingUrl js u (productListingUrlPatterns (config this)) of
              Inl e \<Rightarrow> (Inl e, this)
            | Inr False \<Rightarrow> (Inr None, this)
            | Inr True \<Rightarrow> (Inr (Some req), this\<lparr>processedUrls := insert u (processedUrls this)\<rparr>)))"

text \<open>
  The engine's \<^verbatim>\<open>enqueueLinks\<close>, as far as the crawler relies on it. It reads the
  \<^verbatim>\<open>href\<close> attribute of every link of the page, in document order, resolves each
  against the URL the page was loaded from with the \<^verbatim>\<open>URL\<close> constructor, and drops
  the ones the constructor rejects (\<open>extractUrlsFromPage\<close>; the page is taken to have no
  \<^verbatim>\<open>base\<close> element). It builds one request per URL that is left, carrying the
  label it was given, and passes each through the callback. The requests the callback
  returns go on to the engine's request queue, whose own filters and deduplication come
  after and are not part of the model; the others are dropped. An exception of the
  callback ends the call before anything goes on; what the callback wrote to the set
  before stays written.
\<close>

fun extractUrlsFromPage :: "js_builtins \<Rightarrow> string \<Rightarrow> string list \<Rightarrow> string list" where
  "extractUrlsFromPage js baseUrl [] = []"
| "extractUrlsFromPage js baseUrl (href # hrefs) =
     (case URL js href baseUrl of
        None \<Rightarrow> extractUrlsFromPage js baseUrl hrefs
      | Some absolute \<Rightarrow> absolute # extractUrlsFromPage js baseUrl hrefs)"

fun mapTransform ::
  "js_builtins \<Rightarrow> string \<Rightarrow> EcommerceCrawler \<Rightarrow> Request list
     \<Rightarrow> (js_error + Request list) \<times> EcommerceCrawler" where
  "mapTransform js baseUrl this [] = (Inr [], this)"
| "mapTransform js baseUrl this (req # reqs) =
     (case transformRequestFunction js baseUrl this req of
        (Inl e, this1) \<Rightarrow> (Inl e, this1)
      | (Inr kept, this1) \<Rightarrow>
          (case mapTransform js baseUrl this1 reqs of
             (Inl e, this2) \<Rightarrow> (Inl e, this2)
           | (Inr rest, this2) \<Rightarrow>
               (Inr (case kept of None \<Rightarrow> rest | Some r \<Rightarrow> r # rest), this2)))"

definition enqueueLinks ::
  "js_builtins \<Rightarrow> string \<Rightarrow> EcommerceCrawler \<Rightarrow> string list
     \<Rightarrow> (js_error + Request list) \<times> EcommerceCrawler" where
  "enqueueLinks js baseUrl this hrefs =
     mapTransform js baseUrl this
       (map (\<lambda>u. \<lparr>url = u, label = Some ''detail''\<rparr>) (extractUrlsFromPage js baseUrl hrefs))"

section \<open>The detail handler: extraction\<close>

text \<open>
  The page, as far as \<^verbatim>\<open>page.evaluate\<close> reads it: \<open>querySelectorAll\<close> gives the
  elements a selector matches, in document order; of an element only the \<^verbatim>\<open>href\<close>
  properties of its descendants matching \<^verbatim>\<open>a[href]\<close> matter, in document order.
\<close>

datatype element = Element (anchors: "string list")

type_synonym document = "string \<Rightarrow> element list"

record ProductRecord =
  link :: "string option"

text \<open>\<^verbatim>\<open>card.querySelector("a[href]")\<close>: the first match, or null.\<close>

fun querySelector_a_href :: "element \<Rightarrow> string option" where
  "querySelector_a_href (Element []) = None"
| "querySelector_a_href (Element (h # hs)) = Some h"

text \<open>
  The function evaluated in the page. The selector is the literal of the source;
  \<^verbatim>\<open>linkElement?.href || null\<close> is null for a missing anchor and for an empty href.
\<close>

definition extractProducts :: "document \<Rightarrow> ProductRecord list" where
  "extractProducts querySelectorAll =
     map (\<lambda>card.
            \<lparr>link = (case querySelector_a_href card of
                       None \<Rightarrow> None
                     | Some href \<Rightarrow> if href = [] then None else Some href)\<rparr>)
         (querySelectorAll ''.rilrtl-products-list__item'')"

section \<open>Handlers, router and run\<close>

text \<open>
  What a handler invocation receives from the engine: the label and the loaded URL of
  the request, the non-empty \<^verbatim>\<open>href\<close> attributes of the links on the page, which
  \<^verbatim>\<open>enqueueLinks\<close> reads, and the page itself (\<open>None\<close> when
  \<^verbatim>\<open>page.evaluate\<close> rejects).
\<close>

record Context =
  requestLabel :: "string option"
  loadedUrl :: "string option"
  pageLinks :: "string list"
  page :: "document option"

datatype log_entry =
    InfoProcessing "string option"
  | InfoExtracted "ProductRecord list"
  | ErrorProcessing "string option"

text \<open>
  What a handler invocation leaves behind: the exception it ended with, if any; the
  requests the callback returned, which \<^verbatim>\<open>enqueueLinks\<close> hands on to the engine's
  queue; the log lines.
\<close>

record HandlerResult =
  thrown :: "js_error option"
  enqueued :: "Request list"
  logged :: "log_entry list"

text \<open>\<^verbatim>\<open>if (!baseUrl) return;\<close> leaves on an undefined and on an empty loaded URL.\<close>

definition defaultHandler ::
  "js_builtins \<Rightarrow> EcommerceCrawler \<Rightarrow> Context \<Rightarrow> HandlerResult \<times> EcommerceCrawler" where
  "defaultHandler js this ctx =
     (case loadedUrl ctx of
        None \<Rightarrow> (\<lparr>thrown = None, enqueued = [], logged = []\<rparr>, this)
      | Some baseUrl \<Rightarrow>
          if baseUrl = [] then (\<lparr>thrown = None, enqueued = [], logged = []\<rparr>, this)
          else (case enqueueLinks js baseUrl this (pageLinks ctx) of
                  (Inl e, this1) \<Rightarrow> (\<lparr>thrown = Some e, enqueued = [], logged = []\<rparr>, this1)
                | (Inr reqs, this1) \<Rightarrow> (\<lparr>thrown = None, enqueued = reqs, logged = []\<rparr>, this1)))"

text \<open>
  The handler of the label \<^verbatim>\<open>detail\<close>. Its \<^verbatim>\<open>try\<close> catches a rejected
  \<^verbatim>\<open>page.evaluate\<close> and logs it; the records are logged and nothing else is done
  with them. The handler reads neither the configuration nor the set.
\<close>

definition detailHandler ::
  "EcommerceCrawler \<Rightarrow> Context \<Rightarrow> HandlerResult \<times> EcommerceCrawler" where
  "detailHandler this ctx =
     (case page ctx of
        None \<Rightarrow>
          (\<lparr>thrown = None, enqueued = [],
            logged = [InfoProcessing (loadedUrl ctx), ErrorProcessing (loadedUrl ctx)]\<rparr>, this)
      | Some doc \<Rightarrow>
          (\<lparr>thrown = None, enqueued = [],
            logged = [InfoProcessing (loadedUrl ctx), InfoExtracted (extractProducts doc)]\<rparr>, this))"

text \<open>
  The router: a request labelled \<^verbatim>\<open>detail\<close> goes to the handler registered for that
  label, every other request to the default handler.
\<close>

definition router ::
  "js_builtins \<Rightarrow> EcommerceCrawler \<Rightarrow> Context \<Rightarrow> HandlerResult \<times> EcommerceCrawler" where
  "router js this ctx =
     (if requestLabel ctx = Some ''detail'' then detailHandler this ctx
      else defaultHandler js this ctx)"

text \<open>
  A crawl is the sequence of handler invocations the engine makes, each on the crawler
  object the previous one left. Which pages the engine fetches, and in which order, is
  the engine's choice: the list is arbitrary. The callback runs inside a synchronous
  \<^verbatim>\<open>map\<close>, so the writes of one page's expansion are not interleaved with another's.
\<close>

fun crawl ::
  "js_builtins \<Rightarrow> EcommerceCrawler \<Rightarrow> Context list \<Rightarrow> HandlerResult list \<times> EcommerceCrawler" where
  "crawl js this [] = ([], this)"
| "crawl js this (ctx # ctxs) =
     (case router js this ctx of
        (res, this1) \<Rightarrow> (case crawl js this1 ctxs of (ress, this2) \<Rightarrow> (res # ress, this2)))"

text \<open>
  \<^verbatim>\<open>run\<close>: the options given to the engine's crawler, the seeds given to its
  \<^verbatim>\<open>run\<close>, and the crawl that follows. \<^verbatim>\<open>this.config.maxPages! * 2\<close> is the only
  read of \<open>maxPages\<close>.
\<close>

record PlaywrightCrawlerOptions =
  maxRequestsPerCrawl :: "int option"
  maxConcurrency :: int

record Run =
  crawlerOptions :: PlaywrightCrawlerOptions
  seeds :: "string list"
  results :: "HandlerResult list"
  final :: EcommerceCrawler

definition run :: "js_builtins \<Rightarrow> EcommerceCrawler \<Rightarrow> Context list \<Rightarrow> Run" where
  "run js this ctxs =
     \<lparr>crawlerOptions =
        \<lparr>maxRequestsPerCrawl = map_option (\<lambda>n. n * 2) (maxPages (config this)),
         maxConcurrency = 10\<rparr>,
      seeds = startUrls (config this),
      results = fst (crawl js this ctxs),
      final = snd (crawl js this ctxs)\<rparr>"

section \<open>The RegExp constructor on sample patterns\<close>

text \<open>
  The theorems on the crawler hold for every \<open>js\<close>. Their examples need the
  \<^verbatim>\<open>RegExp\<close> constructor at concrete patterns; \<open>sampleRegExp\<close> gives it there and
  nowhere else. It covers the patterns made of literal characters, \<^verbatim>\<open>.\<close>, \<^verbatim>\<open>^\<close>, \<^verbatim>\<open>$\<close> and
  \<^verbatim>\<open>*\<close> after a character or a dot, over ASCII strings. On these the constructor
  succeeds and \<^verbatim>\<open>test\<close> searches for a match at any position: \<^verbatim>\<open>^\<close> and \<^verbatim>\<open>$\<close>
  hold at the two ends of the input only (no flags), the dot takes any character but a
  line terminator. A \<^verbatim>\<open>*\<close> with nothing to repeat is a SyntaxError. A pattern with
  another syntax character (\<^verbatim>\<open>+ ? ( ) [ ] { } |\<close> or a backslash) is outside the
  sample: \<open>parsePattern\<close> answers \<open>None\<close> for it, which is the constructor's answer
  for the unterminated group \<^verbatim>\<open>(\<close> and is not used for any other such pattern.
\<close>

datatype atom = Literal char | AnyChar

datatype piece = StartAnchor | EndAnchor | Single atom | Starred atom

definition atomOf :: "char \<Rightarrow> atom" where
  "atomOf c = (if c = CHR ''.'' then AnyChar else Literal c)"

definition otherSyntax :: "char list" where
  "otherSyntax = ''+?()[]{}|'' @ [CHR 0x5C]"

fun parsePattern :: "string \<Rightarrow> piece list option" where
  "parsePattern [] = Some []"
| "parsePattern (c # cs) =
     (if c = CHR ''^'' then map_option ((#) StartAnchor) (parsePattern cs)
      else if c = CHR ''$'' then map_option ((#) EndAnchor) (parsePattern cs)
      else if c = CHR ''*'' \<or> c \<in> set otherSyntax then None
      else (case cs of
              [] \<Rightarrow> Some [Single (atomOf c)]
            | d # ds \<Rightarrow>
                if d = CHR ''*'' then map_option ((#) (Starred (atomOf c))) (parsePattern ds)
                else map_option ((#) (Single (atomOf c))) (parsePattern cs)))"

fun atomTakes :: "atom \<Rightarrow> char \<Rightarrow> bool" where
  "atomTakes (Literal c) d = (c = d)"
| "atomTakes AnyChar d = (d \<noteq> CHR 0x0A \<and> d \<noteq> CHR 0x0D)"

text \<open>
  \<open>matchHere ps atStart s\<close>: the pieces match a prefix of the rest \<open>s\<close> of the input;
  \<open>atStart\<close> tells whether \<open>s\<close> is the whole input.
\<close>

fun matchHere :: "piece list \<Rightarrow> bool \<Rightarrow> string \<Rightarrow> bool" where
  "matchHere [] atStart s = True"
| "matchHere (StartAnchor # ps) atStart s = (atStart \<and> matchHere ps atStart s)"
| "matchHere (EndAnchor # ps) atStart s = (s = [] \<and> matchHere ps atStart s)"
| "matchHere (Single a # ps) atStart [] = False"
| "matchHere (Single a # ps) atStart (d # s) = (atomTakes a d \<and> matchHere ps False s)"
| "matchHere (Starred a # ps) atStart [] = matchHere ps atStart []"
| "matchHere (Starred a # ps) atStart (d # s) =
     (matchHere ps atStart (d # s) \<or> (atomTakes a d \<and> matchHere (Starred a # ps) False s))"

fun searchFrom :: "piece list \<Rightarrow> bool \<Rightarrow> string \<Rightarrow> bool" where
  "searchFrom ps atStart [] = matchHere ps atStart []"
| "searchFrom ps atStart (d # s) = (matchHere ps atStart (d # s) \<or> searchFrom ps False s)"

definition sampleRegExp :: "string \<Rightarrow> (string \<Rightarrow> bool) option" where
  "sampleRegExp p = map_option (\<lambda>ps s. searchFrom ps True s) (parsePattern p)"

section \<open>The URL constructor on plain ASCII\<close>

text \<open>
  Modelled from the spec: the resolution of a link against a base, which the source
  leaves to the runtime's \<^verbatim>\<open>URL\<close> constructor and the specification calls standard
  URL-resolution semantics. The model follows the basic URL parser and the serialiser
  of the URL Standard, state by state, on the inputs it covers, and says where it stops:
  an outcome is the parsed value, \<open>Failure\<close> where the Standard returns failure (the
  constructor throws a TypeError), or \<open>Beyond\<close> where the input is outside the model.

  Outside the model are: a character other than a letter, a digit, a space or one of
  \<^verbatim>\<open>- . _ ~ : / ? # @ ! $ & ' ( ) * + , ; = %\<close>; the scheme \<^verbatim>\<open>file\<close>; credentials
  (an \<^verbatim>\<open>@\<close> in the authority); a host with a character other than a letter, a digit,
  \<^verbatim>\<open>-\<close>, \<^verbatim>\<open>.\<close>, \<^verbatim>\<open>_\<close> or a space; for the special schemes a host whose last label
  starts with a digit (an IPv4 address) or with a label starting \<^verbatim>\<open>xn--\<close>; a space in
  an opaque path. On what is left the percent-encode sets all reduce to the space, and
  to the apostrophe in the query of a special scheme.
\<close>

datatype 'a outcome = Parsed 'a | Failure | Beyond

record url_record =
  urlScheme :: string
  urlHost :: "string option"
  urlPort :: "string option"
  urlPath :: "string list"
  urlOpaque :: "string option"
  urlQuery :: "string option"
  urlFragment :: "string option"

definition emptyUrl :: "string \<Rightarrow> url_record" where
  "emptyUrl sc =
     \<lparr>urlScheme = sc, urlHost = None, urlPort = None, urlPath = [], urlOpaque = None,
      urlQuery = None, urlFragment = None\<rparr>"

definition isDigit :: "char \<Rightarrow> bool" where
  "isDigit c = (c \<in> set ''0123456789'')"

definition isUpper :: "char \<Rightarrow> bool" where
  "isUpper c = (c \<in> set ''ABCDEFGHIJKLMNOPQRSTUVWXYZ'')"

definition isLower :: "char \<Rightarrow> bool" where
  "isLower c = (c \<in> set ''abcdefghijklmnopqrstuvwxyz'')"

definition isAlpha :: "char \<Rightarrow> bool" where
  "isAlpha c = (isUpper c \<or> isLower c)"

definition isAlnum :: "char \<Rightarrow> bool" where
  "isAlnum c = (isAlpha c \<or> isDigit c)"

definition lower :: "char \<Rightarrow> char" where
  "lower c =
     (case map_of (zip ''ABCDEFGHIJKLMNOPQRSTUVWXYZ'' ''abcdefghijklmnopqrstuvwxyz'') c of
        Some d \<Rightarrow> d
      | None \<Rightarrow> c)"

definition allowedChar :: "char \<Rightarrow> bool" where
  "allowedChar c = (isAlnum c \<or> c \<in> set ''-._~:/?#@!$&()*+,;=% '' \<or> c = CHR 0x27)"

text \<open>Leading and trailing spaces are removed before parsing.\<close>

definition strip :: "string \<Rightarrow> string" where
  "strip s = rev (dropWhile (\<lambda>c. c = CHR '' '') (rev (dropWhile (\<lambda>c. c = CHR '' '') s)))"

text \<open>
  Scheme start state and scheme state: a letter, then letters, digits, \<^verbatim>\<open>+\<close>, \<^verbatim>\<open>-\<close>
  and \<^verbatim>\<open>.\<close> up to a colon give the scheme, in lower case, and the rest; anything else
  means the input has no scheme.
\<close>

definition isSchemeChar :: "char \<Rightarrow> bool" where
  "isSchemeChar c = (isAlnum c \<or> c \<in> set ''+-.'')"

definition schemeOf :: "string \<Rightarrow> (string \<times> string) option" where
  "schemeOf s =
     (case s of
        [] \<Rightarrow> None
      | c # cs \<Rightarrow>
          if isAlpha c then
            (case dropWhile isSchemeChar s of
               [] \<Rightarrow> None
             | d # rest \<Rightarrow>
                 if d = CHR '':'' then Some (map lower (takeWhile isSchemeChar s), rest) else None)
          else None)"

definition defaultPort :: "string \<Rightarrow> nat option" where
  "defaultPort sc =
     map_of [(''http'', 80), (''https'', 443), (''ws'', 80), (''wss'', 443), (''ftp'', 21)] sc"

definition special :: "string \<Rightarrow> bool" where
  "special sc = (defaultPort sc \<noteq> None)"

text \<open>Percent-encoding, on the characters of the model.\<close>

definition encodeChar :: "char \<Rightarrow> string" where
  "encodeChar c = (if c = CHR '' '' then ''%20'' else [c])"

definition encodeQueryChar :: "bool \<Rightarrow> char \<Rightarrow> string" where
  "encodeQueryChar sp c = (if sp \<and> c = CHR 0x27 then ''%27'' else encodeChar c)"

text \<open>Fragment state: the rest of the input is the fragment.\<close>

definition fragmentState :: "url_record \<Rightarrow> string \<Rightarrow> url_record" where
  "fragmentState u s = u\<lparr>urlFragment := Some (concat (map encodeChar s))\<rparr>"

text \<open>Query state: the query runs to the first \<^verbatim>\<open>#\<close> or to the end.\<close>

definition queryState :: "url_record \<Rightarrow> string \<Rightarrow> url_record" where
  "queryState u s =
     (let q = takeWhile (\<lambda>c. c \<noteq> CHR ''#'') s;
          u1 = u\<lparr>urlQuery := Some (concat (map (encodeQueryChar (special (urlScheme u))) q))\<rparr>
      in case dropWhile (\<lambda>c. c \<noteq> CHR ''#'') s of
           [] \<Rightarrow> u1
         | c # f \<Rightarrow> fragmentState u1 f)"

definition singleDot :: "string \<Rightarrow> bool" where
  "singleDot buf = (map lower buf \<in> set [''.'', ''%2e''])"

definition doubleDot :: "string \<Rightarrow> bool" where
  "doubleDot buf = (map lower buf \<in> set [''..'', ''.%2e'', ''%2e.'', ''%2e%2e''])"

text \<open>
  The end of a path segment in the path state; \<open>slash\<close> tells whether a \<^verbatim>\<open>/\<close> ended
  it. A double-dot segment shortens the path, a single-dot segment adds nothing, and
  either leaves an empty last segment when no \<^verbatim>\<open>/\<close> follows.
\<close>

definition endSegment :: "url_record \<Rightarrow> string \<Rightarrow> bool \<Rightarrow> url_record" where
  "endSegment u buf slash =
     (if doubleDot buf then
        u\<lparr>urlPath := (if slash then butlast (urlPath u) else butlast (urlPath u) @ [[]])\<rparr>
      else if singleDot buf then
        (if slash then u else u\<lparr>urlPath := urlPath u @ [[]]\<rparr>)
      else u\<lparr>urlPath := urlPath u @ [buf]\<rparr>)"

fun pathState :: "url_record \<Rightarrow> string \<Rightarrow> string \<Rightarrow> url_record" where
  "pathState u buf [] = endSegment u buf False"
| "pathState u buf (c # s) =
     (if c = CHR ''/'' then pathState (endSegment u buf True) [] s
      else if c = CHR ''?'' then queryState (endSegment u buf False) s
      else if c = CHR ''#'' then fragmentState (endSegment u buf False) s
      else pathState u (buf @ encodeChar c) s)"

text \<open>
  Path start state. A special scheme always has a path, so the path state runs even on
  an empty rest; another scheme gets a path only when something follows.
\<close>

definition pathStartState :: "url_record \<Rightarrow> string \<Rightarrow> url_record" where
  "pathStartState u s =
     (case s of
        [] \<Rightarrow> if special (urlScheme u) then pathState u [] [] else u
      | c # r \<Rightarrow>
          if c = CHR ''/'' then pathState u [] r
          else if special (urlScheme u) then pathState u [] s
          else if c = CHR ''?'' then queryState u r
          else if c = CHR ''#'' then fragmentState u r
          else pathState u [] s)"

text \<open>
  Port state: digits up to the end or to \<^verbatim>\<open>/\<close>, \<^verbatim>\<open>?\<close> or \<^verbatim>\<open>#\<close>; anything else
  fails, and so does a port above 65535. The default port of the scheme is dropped;
  the port is kept as its decimal digits without leading zeros.
\<close>

definition decimalValue :: "string \<Rightarrow> nat" where
  "decimalValue ds = foldl (\<lambda>n c. 10 * n + length (takeWhile (\<lambda>d. d \<noteq> c) ''0123456789'')) 0 ds"

definition decimalDigits :: "string \<Rightarrow> string" where
  "decimalDigits ds = (case dropWhile (\<lambda>c. c = CHR ''0'') ds of [] \<Rightarrow> ''0'' | r \<Rightarrow> r)"

definition portState :: "url_record \<Rightarrow> string \<Rightarrow> url_record outcome" where
  "portState u s =
     (let ds = takeWhile isDigit s; rest = dropWhile isDigit s in
      if (case rest of [] \<Rightarrow> False | c # r \<Rightarrow> c \<notin> set ''/?#'') then Failure
      else if ds = [] then Parsed (pathStartState u rest)
      else if 65535 < decimalValue ds then Failure
      else if Some (decimalValue ds) = defaultPort (urlScheme u) then Parsed (pathStartState u rest)
      else Parsed (pathStartState (u\<lparr>urlPort := Some (decimalDigits ds)\<rparr>) rest))"

text \<open>
  Host parsing. A space is a forbidden host code point. For a special scheme the host
  is a domain, in lower case; for another scheme it is opaque and kept as it is.
\<close>

definition isHostChar :: "char \<Rightarrow> bool" where
  "isHostChar c = (isAlnum c \<or> c \<in> set ''-._'')"

fun splitOn :: "char \<Rightarrow> string \<Rightarrow> string list" where
  "splitOn d [] = [[]]"
| "splitOn d (c # s) =
     (if c = d then [] # splitOn d s
      else (case splitOn d s of [] \<Rightarrow> [[c]] | x # xs \<Rightarrow> (c # x) # xs))"

definition lastLabelNumeric :: "string \<Rightarrow> bool" where
  "lastLabelNumeric h =
     (let parts = splitOn (CHR ''.'') h;
          parts1 = (if last parts = [] \<and> 1 < length parts then butlast parts else parts)
      in case last parts1 of [] \<Rightarrow> False | c # cs \<Rightarrow> isDigit c)"

definition hasPunycodeLabel :: "string \<Rightarrow> bool" where
  "hasPunycodeLabel h = list_ex (\<lambda>l. map lower (take 4 l) = ''xn--'') (splitOn (CHR ''.'') h)"

definition parseHost :: "bool \<Rightarrow> string \<Rightarrow> string outcome" where
  "parseHost sp buf =
     (if list_all isHostChar buf then
        (if sp then (if lastLabelNumeric buf \<or> hasPunycodeLabel buf then Beyond
                     else Parsed (map lower buf))
         else Parsed buf)
      else if list_all (\<lambda>c. isHostChar c \<or> c = CHR '' '') buf then Failure
      else Beyond)"

text \<open>
  Host state: the host runs to a \<^verbatim>\<open>:\<close>, which starts the port, or to the end of the
  authority. An empty host before a port fails, and so does an empty host of a special
  scheme.
\<close>

definition hostState :: "url_record \<Rightarrow> string \<Rightarrow> url_record outcome" where
  "hostState u s =
     (let buf = takeWhile (\<lambda>c. c \<notin> set '':/?#'') s;
          rest = dropWhile (\<lambda>c. c \<notin> set '':/?#'') s;
          sp = special (urlScheme u)
      in if (case rest of [] \<Rightarrow> False | c # r \<Rightarrow> c = CHR '':'') then
           (if buf = [] then Failure
            else (case parseHost sp buf of
                    Parsed h \<Rightarrow> portState (u\<lparr>urlHost := Some h\<rparr>) (tl rest)
                  | Failure \<Rightarrow> Failure
                  | Beyond \<Rightarrow> Beyond))
         else
           (if sp \<and> buf = [] then Failure
            else (case parseHost sp buf of
                    Parsed h \<Rightarrow> Parsed (pathStartState (u\<lparr>urlHost := Some h\<rparr>) rest)
                  | Failure \<Rightarrow> Failure
                  | Beyond \<Rightarrow> Beyond)))"

text \<open>Authority state: credentials are outside the model.\<close>

definition authorityState :: "url_record \<Rightarrow> string \<Rightarrow> url_record outcome" where
  "authorityState u s =
     (if CHR ''@'' \<in> set (takeWhile (\<lambda>c. c \<notin> set ''/?#'') s) then Beyond else hostState u s)"

text \<open>Special authority ignore slashes state: any number of slashes, then the authority.\<close>

definition ignoreSlashes :: "url_record \<Rightarrow> string \<Rightarrow> url_record outcome" where
  "ignoreSlashes u s = authorityState u (dropWhile (\<lambda>c. c = CHR ''/'') s)"

text \<open>
  Relative state and relative slash state, for an input without a scheme of its own
  against a base with a hierarchical path: \<^verbatim>\<open>//\<close> starts a new authority, \<^verbatim>\<open>/\<close> a
  new path below the base's host, \<^verbatim>\<open>?\<close> and \<^verbatim>\<open>#\<close> a new query or fragment on the
  base's path, and anything else a path that replaces the base's last segment. The
  base's fragment is never kept.
\<close>

definition relativeState :: "url_record \<Rightarrow> string \<Rightarrow> url_record outcome" where
  "relativeState base s =
     (case s of
        [] \<Rightarrow> Parsed (base\<lparr>urlFragment := None\<rparr>)
      | c # r \<Rightarrow>
          if c = CHR ''/'' then
            (case r of
               [] \<Rightarrow> Parsed (pathState (base\<lparr>urlPath := [], urlQuery := None, urlFragment := None\<rparr>) [] [])
             | d # r1 \<Rightarrow>
                 if d = CHR ''/'' then
                   (if special (urlScheme base) then ignoreSlashes (emptyUrl (urlScheme base)) r1
                    else authorityState (emptyUrl (urlScheme base)) r1)
                 else Parsed (pathState (base\<lparr>urlPath := [], urlQuery := None, urlFragment := None\<rparr>) [] r))
          else if c = CHR ''?'' then Parsed (queryState (base\<lparr>urlFragment := None\<rparr>) r)
          else if c = CHR ''#'' then Parsed (fragmentState base r)
          else Parsed (pathState
                 (base\<lparr>urlPath := butlast (urlPath base), urlQuery := None, urlFragment := None\<rparr>) [] s))"

text \<open>
  No scheme state: without a base the parse fails; against a base with an opaque path
  only a fragment can be resolved.
\<close>

definition noSchemeState :: "url_record option \<Rightarrow> string \<Rightarrow> url_record outcome" where
  "noSchemeState base s =
     (case base of
        None \<Rightarrow> Failure
      | Some b \<Rightarrow>
          if urlOpaque b \<noteq> None then
            (case s of
               [] \<Rightarrow> Failure
             | c # r \<Rightarrow> if c = CHR ''#'' then Parsed (fragmentState b r) else Failure)
          else relativeState b s)"

text \<open>Opaque path state, for a scheme that is not special and no \<^verbatim>\<open>/\<close> after it.\<close>

definition opaquePathState :: "url_record \<Rightarrow> string \<Rightarrow> url_record outcome" where
  "opaquePathState u s =
     (let p = takeWhile (\<lambda>c. c \<notin> set ''?#'') s;
          u1 = u\<lparr>urlOpaque := Some p\<rparr>
      in if CHR '' '' \<in> set p then Beyond
         else (case dropWhile (\<lambda>c. c \<notin> set ''?#'') s of
                 [] \<Rightarrow> Parsed u1
               | c # r \<Rightarrow> if c = CHR ''?'' then Parsed (queryState u1 r) else Parsed (fragmentState u1 r)))"

text \<open>
  What follows a scheme. A special scheme that is also the base's continues as a
  relative reference unless \<^verbatim>\<open>//\<close> follows; otherwise a special scheme starts an
  authority after any slashes. Another scheme starts an authority after \<^verbatim>\<open>//\<close>, a path
  after \<^verbatim>\<open>/\<close>, and an opaque path otherwise.
\<close>

definition afterScheme :: "url_record option \<Rightarrow> string \<Rightarrow> string \<Rightarrow> url_record outcome" where
  "afterScheme base sc rest =
     (if sc = ''file'' then Beyond
      else if special sc then
        (case base of
           None \<Rightarrow> ignoreSlashes (emptyUrl sc) rest
         | Some b \<Rightarrow>
             if urlScheme b = sc \<and> take 2 rest \<noteq> ''//'' then relativeState b rest
             else ignoreSlashes (emptyUrl sc) rest)
      else
        (case rest of
           [] \<Rightarrow> opaquePathState (emptyUrl sc) rest
         | c # r \<Rightarrow>
             if c = CHR ''/'' then
               (case r of
                  [] \<Rightarrow> Parsed (pathState (emptyUrl sc) [] [])
                | d # r1 \<Rightarrow>
                    if d = CHR ''/'' then authorityState (emptyUrl sc) r1
                    else Parsed (pathState (emptyUrl sc) [] r))
             else opaquePathState (emptyUrl sc) rest))"

text \<open>The basic URL parser, with or without a base.\<close>

definition basicParse :: "url_record option \<Rightarrow> string \<Rightarrow> url_record outcome" where
  "basicParse base input =
     (let s = strip input in
      if \<not> list_all allowedChar s then Beyond
      else (case schemeOf s of
              Some (sc, rest) \<Rightarrow> afterScheme base sc rest
            | None \<Rightarrow> noSchemeState base s))"

text \<open>The URL serialiser.\<close>

definition serialize :: "url_record \<Rightarrow> string" where
  "serialize u =
     urlScheme u @ '':'' @
     (case urlHost u of
        Some h \<Rightarrow> ''//'' @ h @ (case urlPort u of Some p \<Rightarrow> '':'' @ p | None \<Rightarrow> [])
      | None \<Rightarrow>
          if urlOpaque u = None \<and> 1 < length (urlPath u) \<and> hd (urlPath u) = [] then ''/.''
          else []) @
     (case urlOpaque u of
        Some p \<Rightarrow> p
      | None \<Rightarrow> concat (map (\<lambda>seg. CHR ''/'' # seg) (urlPath u))) @
     (case urlQuery u of Some q \<Rightarrow> CHR ''?'' # q | None \<Rightarrow> []) @
     (case urlFragment u of Some f \<Rightarrow> CHR ''#'' # f | None \<Rightarrow> [])"

text \<open>
  \<^verbatim>\<open>new URL(u, b).href\<close>: the base is parsed first, on its own, and a base that
  fails makes the constructor throw whatever \<open>u\<close> is.
\<close>

definition hrefOf :: "string \<Rightarrow> string \<Rightarrow> string outcome" where
  "hrefOf u b =
     (case basicParse None b of
        Parsed base \<Rightarrow>
          (case basicParse (Some base) u of
             Parsed r \<Rightarrow> Parsed (serialize r)
           | Failure \<Rightarrow> Failure
           | Beyond \<Rightarrow> Beyond)
      | Failure \<Rightarrow> Failure
      | Beyond \<Rightarrow> Beyond)"

text \<open>
  Modelled from the spec: the \<^verbatim>\<open>URL\<close> constructor of the runtime, in the form the
  crawler's functions take it. Where the model stops the answer is \<open>None\<close>; the theorems
  on \<open>standardURL\<close> say so where it matters.
\<close>

definition standardURL :: "string \<Rightarrow> string \<Rightarrow> string option" where
  "standardURL u b = (case hrefOf u b of Parsed href \<Rightarrow> Some href | Failure \<Rightarrow> None | Beyond \<Rightarrow> None)"



section \<open>The builtins of the examples\<close>

definition sample_js :: js_builtins where
  "sample_js = \<lparr>RegExp = sampleRegExp, URL = standardURL\<rparr>"

section \<open>Observations on a crawl\<close>

text \<open>
  The normalised form under which a request of a handler invocation was claimed: its
  URL normalised against the loaded URL of the page it was found on.
\<close>

definition formsOf :: "js_builtins \<Rightarrow> Context \<Rightarrow> HandlerResult \<Rightarrow> string list" where
  "formsOf js ctx res =
     map (\<lambda>r. normalizeUrl js (url r) (case loadedUrl ctx of Some b \<Rightarrow> b | None \<Rightarrow> []))
         (enqueued res)"

text \<open>The normalised forms of all requests the callback returned in a crawl, in order.\<close>

fun enqueuedForms :: "js_builtins \<Rightarrow> Context list \<Rightarrow> HandlerResult list \<Rightarrow> string list" where
  "enqueuedForms js (ctx # ctxs) (res # ress) = formsOf js ctx res @ enqueuedForms js ctxs ress"
| "enqueuedForms js ctxs ress = []"

text \<open>
  The normalised forms of the links of a page: of the URLs the engine resolves the
  page's links to, each normalised as the callback does.
\<close>

definition linkForms :: "js_builtins \<Rightarrow> Context \<Rightarrow> string set" where
  "linkForms js ctx =
     (\<lambda>u. normalizeUrl js u (case loadedUrl ctx of Some b \<Rightarrow> b | None \<Rightarrow> []))
       ` set (extractUrlsFromPage js (case loadedUrl ctx of Some b \<Rightarrow> b | None \<Rightarrow> []) (pageLinks ctx))"

section \<open>Sample inputs\<close>

text \<open>
  A configuration for the shop of the example in \<^verbatim>\<open>main\<close>, with one listing pattern
  written in the sampled pattern language, and two pages of that shop: the home page
  with four links, two of which have the same normalised form, and a product list
  whose cards match the selector of the configuration and not the one of the handler.
\<close>

definition sampleConfig :: CrawlerConfig where
  "sampleConfig =
     \<lparr>startUrls = [''https://www.ajio.com/''],
      productListingUrlPatterns = [''^https://www.ajio.com/.*/c/''],
      productCardSelectors = [''.product-base''],
      productUrlPatterns = [''/buy/'', ''/p/'', ''/item/'', ''products?id=''],
      paginationSelectors = [''.pagination a'', ''.next-page''],
      productLinkSelectors = [''.product-card a'', ''.product-link''],
      maxPages = Some 100\<rparr>"

definition noCards :: document where
  "noCards = (\<lambda>selector. [])"

definition homePage :: Context where
  "homePage =
     \<lparr>requestLabel = None,
      loadedUrl = Some ''https://www.ajio.com/'',
      pageLinks = [''/shop/sale/c/123'', ''/help'', ''https://www.ajio.com/shop/sale/c/123'',
                   ''/shop/women/c/456''],
      page = Some noCards\<rparr>"

definition productBaseCards :: document where
  "productBaseCards =
     (\<lambda>selector. if selector = ''.product-base''
                 then [Element [''https://www.ajio.com/p/1''], Element []]
                 else [])"

definition listPage :: Context where
  "listPage =
     \<lparr>requestLabel = Some ''detail'',
      loadedUrl = Some ''https://www.ajio.com/shop/sale/c/123'',
      pageLinks = [],
      page = Some productBaseCards\<rparr>"

definition itemCards :: document where
  "itemCards =
     (\<lambda>selector. if selector = ''.rilrtl-products-list__item''
                 then [Element [''https://www.ajio.com/p/1'', ''https://www.ajio.com/p/2''],
                       Element [], Element [[]]]
                 else [])"

text \<open>The sample configuration with a second seed: the sale listing.\<close>

definition twoSeeds :: CrawlerConfig where
  "twoSeeds =
     sampleConfig\<lparr>startUrls := [''https://www.ajio.com/'', ''https://www.ajio.com/shop/sale/c/123'']\<rparr>"

section \<open>Classification\<close>

text \<open>
  C9. The listing test and the product test are the same function: on every URL and
  every pattern list they give the same outcome (the same boolean, or the same
  SyntaxError), and both answer false on the empty pattern list.
\<close>

theorem listing_and_product_tests_agree:
  "isListingUrl js u patterns = isProductUrl js u patterns
   \<and> isListingUrl js u [] = Inr False \<and> isProductUrl js u [] = Inr False"
proof -
  have "isListingUrl js u patterns = isProductUrl js u patterns"
    by (induction patterns) (simp_all split: option.split)
  then show ?thesis by simp
qed

section \<open>Evaluating the samples\<close>

text \<open>The URL constructor at the pairs of link and base the examples use.\<close>

lemma sample_hrefs:
  "standardURL ''/shop/sale/c/123'' ''https://www.ajio.com/'' = Some ''https://www.ajio.com/shop/sale/c/123''"
  "standardURL ''/shop/women/c/456'' ''https://www.ajio.com/'' = Some ''https://www.ajio.com/shop/women/c/456''"
  "standardURL ''/help'' ''https://www.ajio.com/'' = Some ''https://www.ajio.com/help''"
  "standardURL ''/'' ''https://www.ajio.com/'' = Some ''https://www.ajio.com/''"
  "standardURL ''https://www.ajio.com/shop/sale/c/123'' ''https://www.ajio.com/'' = Some ''https://www.ajio.com/shop/sale/c/123''"
  "standardURL ''https://www.ajio.com/shop/women/c/456'' ''https://www.ajio.com/'' = Some ''https://www.ajio.com/shop/women/c/456''"
  "standardURL ''https://www.ajio.com/help'' ''https://www.ajio.com/'' = Some ''https://www.ajio.com/help''"
  "standardURL ''https://www.ajio.com/'' ''https://www.ajio.com/'' = Some ''https://www.ajio.com/''"
  "standardURL ''https://www.ajio.com/shop/sale/c/123'' ''https://www.ajio.com/men/'' = Some ''https://www.ajio.com/shop/sale/c/123''"
  "standardURL ''javascript:void(0)'' ''https://www.ajio.com/'' = Some ''javascript:void(0)''"
  "standardURL ''::not a url::'' ''https://www.ajio.com/'' = Some ''https://www.ajio.com/::not%20a%20url::''"
  "standardURL ''https://'' ''https://www.ajio.com/'' = None"
  "standardURL ''https://www.ajio.com/'' ''not a base'' = None"
  "standardURL ''HTTPS://WWW.AJIO.COM'' ''https://www.ajio.com/'' = Some ''https://www.ajio.com/''"
  by code_simp+

lemmas sample_defs =
  sample_js_def sampleRegExp_def atomOf_def otherSyntax_def sample_hrefs
  normalizeUrl_def transformRequestFunction_def enqueueLinks_def defaultHandler_def
  detailHandler_def router_def run_def constructor_def sampleConfig_def homePage_def
  listPage_def extractProducts_def productBaseCards_def noCards_def itemCards_def
  formsOf_def linkForms_def Let_def

section \<open>The URL constructor: what the base decides\<close>










section \<open>The callback and its iteration\<close>

lemma isListingUrl_cases:
  "isListingUrl js u ps = Inr True \<or> isListingUrl js u ps = Inr False
   \<or> isListingUrl js u ps = Inl SyntaxError"
  by (induction ps) (auto split: option.splits)

text \<open>The three ways out of the callback.\<close>

lemma transform_result:
  "transformRequestFunction js b this req =
     (let u = normalizeUrl js (url req) b in
      if u \<notin> processedUrls this
         \<and> isListingUrl js u (productListingUrlPatterns (config this)) = Inr True
      then (Inr (Some req), this\<lparr>processedUrls := insert u (processedUrls this)\<rparr>)
      else if u \<in> processedUrls this
              \<or> isListingUrl js u (productListingUrlPatterns (config this)) = Inr False
      then (Inr None, this)
      else (Inl SyntaxError, this))"
  using isListingUrl_cases [of js "normalizeUrl js (url req) b" "productListingUrlPatterns (config this)"]
  by (auto simp: transformRequestFunction_def Let_def)

lemma transform_fields:
  "config (snd (transformRequestFunction js b this req)) = config this \<and>
   pageCount (snd (transformRequestFunction js b this req)) = pageCount this \<and>
   processedUrls this \<subseteq> processedUrls (snd (transformRequestFunction js b this req))"
  by (auto simp: transform_result Let_def)

lemma mapTransform_fields:
  "config (snd (mapTransform js b this reqs)) = config this \<and>
   pageCount (snd (mapTransform js b this reqs)) = pageCount this \<and>
   processedUrls this \<subseteq> processedUrls (snd (mapTransform js b this reqs))"
proof (induction reqs arbitrary: this)
  case Nil
  then show ?case by simp
next
  case (Cons req reqs)
  obtain x this1 where t: "transformRequestFunction js b this req = (x, this1)"
    by (cases "transformRequestFunction js b this req")
  have f: "config this1 = config this" "pageCount this1 = pageCount this"
    "processedUrls this \<subseteq> processedUrls this1"
    using transform_fields [of js b this req] t by simp_all
  show ?case
  proof (cases x)
    case (Inl e)
    with t f show ?thesis by simp
  next
    case (Inr kept)
    obtain y this2 where m: "mapTransform js b this1 reqs = (y, this2)"
      by (cases "mapTransform js b this1 reqs")
    from Cons.IH [of this1] m f
    have "config this2 = config this" "pageCount this2 = pageCount this"
      "processedUrls this \<subseteq> processedUrls this2" by auto
    with t Inr m show ?thesis by (cases y) simp_all
  qed
qed

text \<open>
  When no callback throws, the requests kept are claimed under pairwise different
  forms: the forms of the page's links that match a listing pattern and were not in
  the set before, which is what the set gains.
\<close>

lemma mapTransform_kept:
  "mapTransform js b this reqs = (Inr kept, this1) \<Longrightarrow>
     distinct (map (\<lambda>r. normalizeUrl js (url r) b) kept) \<and>
     set (map (\<lambda>r. normalizeUrl js (url r) b) kept) =
       {u \<in> (\<lambda>r. normalizeUrl js (url r) b) ` set reqs.
          isListingUrl js u (productListingUrlPatterns (config this)) = Inr True}
       - processedUrls this \<and>
     processedUrls this1 = processedUrls this \<union> set (map (\<lambda>r. normalizeUrl js (url r) b) kept) \<and>
     set kept \<subseteq> set reqs"
proof (induction reqs arbitrary: this kept this1)
  case Nil
  then show ?case by auto
next
  case (Cons req reqs)
  let ?n = "\<lambda>r. normalizeUrl js (url r) b"
  let ?pats = "productListingUrlPatterns (config this)"
  obtain x thisA where t: "transformRequestFunction js b this req = (x, thisA)"
    by (cases "transformRequestFunction js b this req")
  obtain y thisB where m: "mapTransform js b thisA reqs = (y, thisB)"
    by (cases "mapTransform js b thisA reqs")
  from Cons.prems t m obtain k rest where
    x: "x = Inr k" and y: "y = Inr rest" and
    kept: "kept = (case k of None \<Rightarrow> rest | Some r \<Rightarrow> r # rest)" and this1: "this1 = thisB"
    by (cases x; cases y) auto
  have cfg: "config thisA = config this"
    using transform_fields [of js b this req] t by simp
  from Cons.IH [of thisA rest thisB] m y cfg
  have ih: "distinct (map ?n rest)"
    "set (map ?n rest) = {u \<in> ?n ` set reqs. isListingUrl js u ?pats = Inr True} - processedUrls thisA"
    "processedUrls thisB = processedUrls thisA \<union> set (map ?n rest)"
    "set rest \<subseteq> set reqs"
    by simp_all
  show ?case
  proof (cases k)
    case None
    with t x have same: "thisA = this"
      and no: "?n req \<in> processedUrls this \<or> isListingUrl js (?n req) ?pats \<noteq> Inr True"
      by (auto simp: transform_result Let_def split: if_splits)
    from None kept have k: "kept = rest" by simp
    have s: "{u \<in> ?n ` set (req # reqs). isListingUrl js u ?pats = Inr True} - processedUrls this =
             {u \<in> ?n ` set reqs. isListingUrl js u ?pats = Inr True} - processedUrls this"
      using no by auto
    have sub: "set rest \<subseteq> set (req # reqs)" using ih(4) by auto
    show ?thesis
      unfolding k this1 s using ih same sub by simp
  next
    case (Some r)
    with t x have r: "r = req" and fresh: "?n req \<notin> processedUrls this"
      and yes: "isListingUrl js (?n req) ?pats = Inr True"
      and A: "processedUrls thisA = insert (?n req) (processedUrls this)"
      by (auto simp: transform_result Let_def split: if_splits)
    from Some kept r have k: "kept = req # rest" by simp
    have notin: "?n req \<notin> set (map ?n rest)"
      unfolding ih(2) A by simp
    have s: "{u \<in> ?n ` set (req # reqs). isListingUrl js u ?pats = Inr True} - processedUrls this =
             insert (?n req) ({u \<in> ?n ` set reqs. isListingUrl js u ?pats = Inr True}
                               - insert (?n req) (processedUrls this))"
      using fresh yes by auto
    have d: "distinct (map ?n (req # rest))" using notin ih(1) by simp
    have e: "set (map ?n (req # rest)) =
             insert (?n req) ({u \<in> ?n ` set reqs. isListingUrl js u ?pats = Inr True}
                               - insert (?n req) (processedUrls this))"
      using ih(2) A by simp
    have p: "processedUrls thisB = processedUrls this \<union> set (map ?n (req # rest))"
      using ih(3) A by auto
    have sub: "set (req # rest) \<subseteq> set (req # reqs)" using ih(4) by auto
    show ?thesis
      unfolding k this1 s using d e p sub by blast
  qed
qed

text \<open>Thrown or not, the set gains forms of the page's links only.\<close>

lemma mapTransform_bound:
  "processedUrls (snd (mapTransform js b this reqs))
     \<subseteq> processedUrls this \<union> (\<lambda>r. normalizeUrl js (url r) b) ` set reqs"
proof (induction reqs arbitrary: this)
  case Nil
  then show ?case by simp
next
  case (Cons req reqs)
  obtain x this1 where t: "transformRequestFunction js b this req = (x, this1)"
    by (cases "transformRequestFunction js b this req")
  then have s: "processedUrls this1 \<subseteq> insert (normalizeUrl js (url req) b) (processedUrls this)"
    by (auto simp: transform_result Let_def split: if_splits)
  show ?case
  proof (cases x)
    case (Inl e)
    with t s show ?thesis by auto
  next
    case (Inr kept)
    obtain y this2 where m: "mapTransform js b this1 reqs = (y, this2)"
      by (cases "mapTransform js b this1 reqs")
    from Cons.IH [of this1] m
    have "processedUrls this2 \<subseteq> processedUrls this1 \<union> (\<lambda>r. normalizeUrl js (url r) b) ` set reqs"
      by simp
    with s have "processedUrls this2
        \<subseteq> processedUrls this \<union> (\<lambda>r. normalizeUrl js (url r) b) ` set (req # reqs)"
      by auto
    with t Inr m show ?thesis by (cases y) simp_all
  qed
qed

text \<open>
  The callback reads two things of the crawler object: the listing patterns and the
  set. Two objects that agree on both get the same answers and the same sets.
\<close>

lemma transform_cong:
  assumes "productListingUrlPatterns (config that) = productListingUrlPatterns (config this)"
      and "processedUrls that = processedUrls this"
  shows "fst (transformRequestFunction js b that req) = fst (transformRequestFunction js b this req) \<and>
         processedUrls (snd (transformRequestFunction js b that req)) =
           processedUrls (snd (transformRequestFunction js b this req))"
  using assms by (simp add: transform_result Let_def)

lemma mapTransform_cong:
  assumes "productListingUrlPatterns (config that) = productListingUrlPatterns (config this)"
      and "processedUrls that = processedUrls this"
  shows "fst (mapTransform js b that reqs) = fst (mapTransform js b this reqs) \<and>
         processedUrls (snd (mapTransform js b that reqs)) =
           processedUrls (snd (mapTransform js b this reqs))"
  using assms
proof (induction reqs arbitrary: this that)
  case Nil
  then show ?case by simp
next
  case (Cons req reqs)
  obtain x thisA where t: "transformRequestFunction js b this req = (x, thisA)"
    by (cases "transformRequestFunction js b this req")
  obtain x' thatA where t': "transformRequestFunction js b that req = (x', thatA)"
    by (cases "transformRequestFunction js b that req")
  from transform_cong [OF Cons.prems, of js b req] t t'
  have x: "x' = x" and p: "processedUrls thatA = processedUrls thisA" by simp_all
  have c: "productListingUrlPatterns (config thatA) = productListingUrlPatterns (config thisA)"
    using transform_fields [of js b this req] transform_fields [of js b that req] t t' Cons.prems(1)
    by simp
  obtain y thisB where m: "mapTransform js b thisA reqs = (y, thisB)"
    by (cases "mapTransform js b thisA reqs")
  obtain y' thatB where m': "mapTransform js b thatA reqs = (y', thatB)"
    by (cases "mapTransform js b thatA reqs")
  from Cons.IH [OF c p] m m'
  have "y' = y" "processedUrls thatB = processedUrls thisB" by simp_all
  with t t' x p m m' show ?case
    by (cases x; cases y) simp_all
qed

section \<open>Handlers and crawls\<close>

lemma router_fields:
  "config (snd (router js this ctx)) = config this \<and>
   pageCount (snd (router js this ctx)) = pageCount this \<and>
   processedUrls this \<subseteq> processedUrls (snd (router js this ctx))"
proof -
  have "snd (detailHandler this ctx) = this"
    by (simp add: detailHandler_def split: option.split)
  moreover have "config (snd (defaultHandler js this ctx)) = config this \<and>
     pageCount (snd (defaultHandler js this ctx)) = pageCount this \<and>
     processedUrls this \<subseteq> processedUrls (snd (defaultHandler js this ctx))"
  proof (cases "loadedUrl ctx")
    case None
    then show ?thesis by (simp add: defaultHandler_def)
  next
    case (Some b)
    obtain y this1 where m: "enqueueLinks js b this (pageLinks ctx) = (y, this1)"
      by (cases "enqueueLinks js b this (pageLinks ctx)")
    then have "config this1 = config this \<and> pageCount this1 = pageCount this \<and>
       processedUrls this \<subseteq> processedUrls this1"
      using mapTransform_fields
        [of js b this "map (\<lambda>u. \<lparr>url = u, label = Some ''detail''\<rparr>) (extractUrlsFromPage js b (pageLinks ctx))"]
      by (simp add: enqueueLinks_def)
    with Some m show ?thesis
      by (cases y) (simp_all add: defaultHandler_def)
  qed
  ultimately show ?thesis by (simp add: router_def)
qed

lemma router_forms:
  assumes "router js this ctx = (res, this1)"
  shows "distinct (formsOf js ctx res) \<and>
         set (formsOf js ctx res) \<inter> processedUrls this = {} \<and>
         set (formsOf js ctx res) \<subseteq> processedUrls this1"
proof (cases "requestLabel ctx \<noteq> Some ''detail'' \<and> (\<exists>b. loadedUrl ctx = Some b \<and> b \<noteq> [])")
  case False
  with assms have "enqueued res = []"
    by (auto simp: router_def detailHandler_def defaultHandler_def split: option.splits if_splits)
  then show ?thesis by (simp add: formsOf_def)
next
  case True
  then obtain b where b: "loadedUrl ctx = Some b" "b \<noteq> []"
    and l: "requestLabel ctx \<noteq> Some ''detail''"
    by auto
  let ?reqs = "map (\<lambda>u. \<lparr>url = u, label = Some ''detail''\<rparr>) (extractUrlsFromPage js b (pageLinks ctx))"
  obtain y thisA where m: "mapTransform js b this ?reqs = (y, thisA)"
    by (cases "mapTransform js b this ?reqs")
  show ?thesis
  proof (cases y)
    case (Inl e)
    with assms b l m have "enqueued res = []"
      by (auto simp: router_def defaultHandler_def enqueueLinks_def)
    then show ?thesis by (simp add: formsOf_def)
  next
    case (Inr kept)
    with assms b l m have r: "enqueued res = kept" "this1 = thisA"
      by (auto simp: router_def defaultHandler_def enqueueLinks_def)
    from mapTransform_kept [of js b this ?reqs kept thisA] m Inr
    have "distinct (map (\<lambda>r. normalizeUrl js (url r) b) kept)"
      "set (map (\<lambda>r. normalizeUrl js (url r) b) kept) \<inter> processedUrls this = {}"
      "set (map (\<lambda>r. normalizeUrl js (url r) b) kept) \<subseteq> processedUrls thisA"
      by auto
    with r b show ?thesis by (simp add: formsOf_def)
  qed
qed

lemma router_bound:
  "processedUrls (snd (router js this ctx)) \<subseteq> processedUrls this \<union> linkForms js ctx"
proof (cases "requestLabel ctx \<noteq> Some ''detail'' \<and> (\<exists>b. loadedUrl ctx = Some b \<and> b \<noteq> [])")
  case False
  then have "snd (router js this ctx) = this"
    by (auto simp: router_def detailHandler_def defaultHandler_def split: option.splits)
  then show ?thesis by simp
next
  case True
  then obtain b where b: "loadedUrl ctx = Some b" "b \<noteq> []"
    and l: "requestLabel ctx \<noteq> Some ''detail''"
    by auto
  let ?reqs = "map (\<lambda>u. \<lparr>url = u, label = Some ''detail''\<rparr>) (extractUrlsFromPage js b (pageLinks ctx))"
  have f: "(\<lambda>r. normalizeUrl js (url r) b) ` set ?reqs = linkForms js ctx"
    using b by (simp add: linkForms_def image_image)
  obtain y this1 where m: "mapTransform js b this ?reqs = (y, this1)"
    by (cases "mapTransform js b this ?reqs")
  with b l have "snd (router js this ctx) = this1"
    by (cases y) (simp_all add: router_def defaultHandler_def enqueueLinks_def)
  with mapTransform_bound [of js b this ?reqs] m f show ?thesis by simp
qed

lemma router_cong:
  assumes "productListingUrlPatterns (config that) = productListingUrlPatterns (config this)"
      and "processedUrls that = processedUrls this"
  shows "fst (router js that ctx) = fst (router js this ctx) \<and>
         processedUrls (snd (router js that ctx)) = processedUrls (snd (router js this ctx))"
proof (cases "requestLabel ctx = Some ''detail''")
  case True
  with assms show ?thesis
    by (simp add: router_def detailHandler_def split: option.split)
next
  case False
  show ?thesis
  proof (cases "\<exists>b. loadedUrl ctx = Some b \<and> b \<noteq> []")
    case no: False
    with False assms show ?thesis
      by (auto simp: router_def defaultHandler_def split: option.split)
  next
    case True
    then obtain b where b: "loadedUrl ctx = Some b" "b \<noteq> []" by auto
    let ?reqs = "map (\<lambda>u. \<lparr>url = u, label = Some ''detail''\<rparr>) (extractUrlsFromPage js b (pageLinks ctx))"
    obtain y thisA where m: "mapTransform js b this ?reqs = (y, thisA)"
      by (cases "mapTransform js b this ?reqs")
    obtain y' thatA where m': "mapTransform js b that ?reqs = (y', thatA)"
      by (cases "mapTransform js b that ?reqs")
    from mapTransform_cong [OF assms, of js b ?reqs] m m'
    have "y' = y" "processedUrls thatA = processedUrls thisA" by simp_all
    with False b m m' show ?thesis
      by (cases y) (simp_all add: router_def defaultHandler_def enqueueLinks_def)
  qed
qed

lemma crawl_fields:
  "config (snd (crawl js this ctxs)) = config this \<and>
   pageCount (snd (crawl js this ctxs)) = pageCount this \<and>
   processedUrls this \<subseteq> processedUrls (snd (crawl js this ctxs))"
proof (induction ctxs arbitrary: this)
  case Nil
  then show ?case by simp
next
  case (Cons ctx ctxs)
  obtain res this1 where r: "router js this ctx = (res, this1)"
    by (cases "router js this ctx")
  obtain ress this2 where c: "crawl js this1 ctxs = (ress, this2)"
    by (cases "crawl js this1 ctxs")
  from router_fields [of js this ctx] r Cons.IH [of this1] c
  show ?case by auto
qed

lemma crawl_forms:
  "distinct (enqueuedForms js ctxs (fst (crawl js this ctxs))) \<and>
   set (enqueuedForms js ctxs (fst (crawl js this ctxs))) \<inter> processedUrls this = {} \<and>
   set (enqueuedForms js ctxs (fst (crawl js this ctxs))) \<subseteq> processedUrls (snd (crawl js this ctxs))"
proof (induction ctxs arbitrary: this)
  case Nil
  then show ?case by simp
next
  case (Cons ctx ctxs)
  obtain res this1 where r: "router js this ctx = (res, this1)"
    by (cases "router js this ctx")
  obtain ress this2 where c: "crawl js this1 ctxs = (ress, this2)"
    by (cases "crawl js this1 ctxs")
  have m1: "processedUrls this \<subseteq> processedUrls this1"
    using router_fields [of js this ctx] r by simp
  have m2: "processedUrls this1 \<subseteq> processedUrls this2"
    using crawl_fields [of js this1 ctxs] c by simp
  have f: "distinct (formsOf js ctx res)" "set (formsOf js ctx res) \<inter> processedUrls this = {}"
    "set (formsOf js ctx res) \<subseteq> processedUrls this1"
    using router_forms [OF r] by simp_all
  have ih: "distinct (enqueuedForms js ctxs ress)"
    "set (enqueuedForms js ctxs ress) \<inter> processedUrls this1 = {}"
    "set (enqueuedForms js ctxs ress) \<subseteq> processedUrls this2"
    using Cons.IH [of this1] c by simp_all
  have e: "enqueuedForms js (ctx # ctxs) (fst (crawl js this (ctx # ctxs))) =
           formsOf js ctx res @ enqueuedForms js ctxs ress"
    and s: "snd (crawl js this (ctx # ctxs)) = this2"
    using r c by simp_all
  have "distinct (formsOf js ctx res @ enqueuedForms js ctxs ress)"
    using f ih by auto
  moreover have "set (formsOf js ctx res @ enqueuedForms js ctxs ress) \<inter> processedUrls this = {}"
    using f ih m1 by auto
  moreover have "set (formsOf js ctx res @ enqueuedForms js ctxs ress) \<subseteq> processedUrls this2"
    using f ih m2 by auto
  ultimately show ?case unfolding e s by blast
qed

lemma crawl_bound:
  "processedUrls (snd (crawl js this ctxs))
     \<subseteq> processedUrls this \<union> (\<Union>ctx \<in> set ctxs. linkForms js ctx)"
proof (induction ctxs arbitrary: this)
  case Nil
  then show ?case by simp
next
  case (Cons ctx ctxs)
  obtain res this1 where r: "router js this ctx = (res, this1)"
    by (cases "router js this ctx")
  obtain ress this2 where c: "crawl js this1 ctxs = (ress, this2)"
    by (cases "crawl js this1 ctxs")
  have "processedUrls this1 \<subseteq> processedUrls this \<union> linkForms js ctx"
    using router_bound [of js this ctx] r by simp
  moreover have "processedUrls this2 \<subseteq> processedUrls this1 \<union> (\<Union>ctx \<in> set ctxs. linkForms js ctx)"
    using Cons.IH [of this1] c by simp
  ultimately have "processedUrls this2
      \<subseteq> processedUrls this \<union> (\<Union>ctx \<in> set (ctx # ctxs). linkForms js ctx)"
    by auto
  with r c show ?case by simp
qed

lemma crawl_cong:
  assumes "productListingUrlPatterns (config that) = productListingUrlPatterns (config this)"
      and "processedUrls that = processedUrls this"
  shows "fst (crawl js that ctxs) = fst (crawl js this ctxs) \<and>
         processedUrls (snd (crawl js that ctxs)) = processedUrls (snd (crawl js this ctxs))"
  using assms
proof (induction ctxs arbitrary: this that)
  case Nil
  then show ?case by simp
next
  case (Cons ctx ctxs)
  obtain res this1 where r: "router js this ctx = (res, this1)"
    by (cases "router js this ctx")
  obtain res' that1 where r': "router js that ctx = (res', that1)"
    by (cases "router js that ctx")
  from router_cong [OF Cons.prems, of js ctx] r r'
  have e: "res' = res" and p: "processedUrls that1 = processedUrls this1" by simp_all
  have c: "productListingUrlPatterns (config that1) = productListingUrlPatterns (config this1)"
    using router_fields [of js this ctx] router_fields [of js that ctx] r r' Cons.prems(1)
    by simp
  obtain ress this2 where k: "crawl js this1 ctxs = (ress, this2)"
    by (cases "crawl js this1 ctxs")
  obtain ress' that2 where k': "crawl js that1 ctxs = (ress', that2)"
    by (cases "crawl js that1 ctxs")
  from Cons.IH [OF c p] k k'
  have "ress' = ress" "processedUrls that2 = processedUrls this2" by simp_all
  with r r' e k k' show ?case by simp
qed

section \<open>Deduplication\<close>

text \<open>
  C1, as the code has it. Once a claim has succeeded for a normalised form (the callback
  found it absent from \<open>processedUrls\<close>, inserted it and returned the request), every
  later attempt for the same form is refused and changes nothing, whatever the crawl
  does in between and whichever page the link is found on. Over any crawl the set only
  grows, the requests that link expansion hands to the engine were claimed under
  pairwise different forms, and none of these forms was in the set when the crawl
  began. The seeds are not counted here: they are handed to the engine unclaimed.
\<close>

theorem claimed_once_never_again:
  "(\<forall>b req r this1 b' req'.
      transformRequestFunction js b this req = (Inr (Some r), this1) \<and>
      normalizeUrl js (url req') b' = normalizeUrl js (url req) b \<longrightarrow>
      transformRequestFunction js b' (snd (crawl js this1 ctxs)) req' =
        (Inr None, snd (crawl js this1 ctxs)))
   \<and> processedUrls this \<subseteq> processedUrls (snd (crawl js this ctxs))
   \<and> distinct (enqueuedForms js ctxs (fst (crawl js this ctxs)))
   \<and> set (enqueuedForms js ctxs (fst (crawl js this ctxs))) \<inter> processedUrls this = {}"
proof -
  have "transformRequestFunction js b' (snd (crawl js this1 ctxs)) req' =
          (Inr None, snd (crawl js this1 ctxs))"
    if t: "transformRequestFunction js b this req = (Inr (Some r), this1)"
      and n: "normalizeUrl js (url req') b' = normalizeUrl js (url req) b"
    for b req r this1 b' req'
  proof -
    from t have "normalizeUrl js (url req) b \<in> processedUrls this1"
      by (auto simp: transform_result Let_def split: if_splits)
    with crawl_fields [of js this1 ctxs] n
    have "normalizeUrl js (url req') b' \<in> processedUrls (snd (crawl js this1 ctxs))"
      by auto
    then show ?thesis by (simp add: transformRequestFunction_def)
  qed
  with crawl_fields [of js this ctxs] crawl_forms [of js ctxs this]
  show ?thesis by blast
qed

text \<open>
  On the sample: the sale listing is claimed on the home page; after the home page has
  been crawled, the same URL found on another page is refused.
\<close>

theorem claimed_once_never_again_witness:
  "transformRequestFunction sample_js ''https://www.ajio.com/'' (constructor sampleConfig)
      \<lparr>url = ''https://www.ajio.com/shop/sale/c/123'', label = Some ''detail''\<rparr>
     = (Inr (Some \<lparr>url = ''https://www.ajio.com/shop/sale/c/123'', label = Some ''detail''\<rparr>),
        (constructor sampleConfig)\<lparr>processedUrls := {''https://www.ajio.com/shop/sale/c/123''}\<rparr>)
   \<and> normalizeUrl sample_js ''https://www.ajio.com/shop/sale/c/123'' ''https://www.ajio.com/men/''
     = normalizeUrl sample_js ''https://www.ajio.com/shop/sale/c/123'' ''https://www.ajio.com/''
   \<and> fst (transformRequestFunction sample_js ''https://www.ajio.com/men/''
        (snd (crawl sample_js
           ((constructor sampleConfig)\<lparr>processedUrls := {''https://www.ajio.com/shop/sale/c/123''}\<rparr>)
           [homePage]))
        \<lparr>url = ''https://www.ajio.com/shop/sale/c/123'', label = Some ''detail''\<rparr>) = Inr None
   \<and> distinct (enqueuedForms sample_js [homePage] (fst (crawl sample_js (constructor sampleConfig) [homePage])))"
proof -
  let ?req = "\<lparr>url = ''https://www.ajio.com/shop/sale/c/123'', label = Some ''detail''\<rparr>"
  let ?this1 = "(constructor sampleConfig)\<lparr>processedUrls := {''https://www.ajio.com/shop/sale/c/123''}\<rparr>"
  have h1: "transformRequestFunction sample_js ''https://www.ajio.com/'' (constructor sampleConfig) ?req
              = (Inr (Some ?req), ?this1)"
    by (simp add: sample_defs)
  have h2: "normalizeUrl sample_js (url ?req) ''https://www.ajio.com/men/''
              = normalizeUrl sample_js (url ?req) ''https://www.ajio.com/''"
    by (simp add: sample_defs)
  note inst = claimed_once_never_again [of sample_js "constructor sampleConfig" "[homePage]"]
  from inst h1 h2
  have "transformRequestFunction sample_js ''https://www.ajio.com/men/''
          (snd (crawl sample_js ?this1 [homePage])) ?req
        = (Inr None, snd (crawl sample_js ?this1 [homePage]))"
    by blast
  with inst h1 h2 show ?thesis by simp
qed

text \<open>
  A URL that is both a seed and a link of a crawled page is handed to the engine twice
  in one run: the sale listing is a seed, and the home page's expansion claims it and
  returns its request.
\<close>

theorem seed_enqueued_twice_counterexample:
  "seeds (run sample_js (constructor twoSeeds) [homePage])
     = [''https://www.ajio.com/'', ''https://www.ajio.com/shop/sale/c/123'']
   \<and> map url (concat (map enqueued (results (run sample_js (constructor twoSeeds) [homePage]))))
     = [''https://www.ajio.com/shop/sale/c/123'', ''https://www.ajio.com/shop/women/c/456'']
   \<and> ''https://www.ajio.com/shop/sale/c/123''
       \<in> processedUrls (final (run sample_js (constructor twoSeeds) [homePage]))
   \<and> count_list
        (seeds (run sample_js (constructor twoSeeds) [homePage])
         @ map url (concat (map enqueued (results (run sample_js (constructor twoSeeds) [homePage])))))
        ''https://www.ajio.com/shop/sale/c/123'' = 2"
  by (simp add: sample_defs twoSeeds_def)

section \<open>The page budget\<close>

text \<open>
  C2, as the code has it. The crawler makes no budget check of its own: it gives the
  engine a request limit of twice \<open>maxPages\<close> (twice 1000 when the configuration has
  none), \<open>pageCount\<close> stays 0 through every crawl, and neither the requests handed to
  the engine nor the set depend on \<open>maxPages\<close>.
\<close>

theorem page_budget_is_the_engines:
  "maxRequestsPerCrawl (crawlerOptions (run js (constructor cfg) ctxs))
     = Some (2 * (case maxPages cfg of None \<Rightarrow> 1000 | Some n \<Rightarrow> n))
   \<and> pageCount (final (run js (constructor cfg) ctxs)) = 0
   \<and> results (run js (constructor (cfg\<lparr>maxPages := m\<rparr>)) ctxs) = results (run js (constructor cfg) ctxs)
   \<and> processedUrls (final (run js (constructor (cfg\<lparr>maxPages := m\<rparr>)) ctxs))
       = processedUrls (final (run js (constructor cfg) ctxs))"
proof -
  have a: "maxRequestsPerCrawl (crawlerOptions (run js (constructor cfg) ctxs))
     = Some (2 * (case maxPages cfg of None \<Rightarrow> 1000 | Some n \<Rightarrow> n))"
    by (simp add: run_def constructor_def split: option.split)
  have b: "pageCount (final (run js (constructor cfg) ctxs)) = 0"
    using crawl_fields [of js "constructor cfg" ctxs] by (simp add: run_def constructor_def)
  have c: "fst (crawl js (constructor (cfg\<lparr>maxPages := m\<rparr>)) ctxs) = fst (crawl js (constructor cfg) ctxs) \<and>
     processedUrls (snd (crawl js (constructor (cfg\<lparr>maxPages := m\<rparr>)) ctxs))
       = processedUrls (snd (crawl js (constructor cfg) ctxs))"
    by (rule crawl_cong) (simp_all add: constructor_def)
  from a b c show ?thesis by (simp add: run_def)
qed

text \<open>
  With \<open>maxPages = 1\<close> the home page alone has two requests handed to the engine, the
  second after the count of queued pages had reached 1, and the engine's limit is 2.
\<close>

theorem page_budget_counterexample:
  "maxPages (config (constructor (sampleConfig\<lparr>maxPages := Some 1\<rparr>))) = Some 1
   \<and> map url (concat (map enqueued
        (results (run sample_js (constructor (sampleConfig\<lparr>maxPages := Some 1\<rparr>)) [homePage]))))
      = [''https://www.ajio.com/shop/sale/c/123'', ''https://www.ajio.com/shop/women/c/456'']
   \<and> maxRequestsPerCrawl
        (crawlerOptions (run sample_js (constructor (sampleConfig\<lparr>maxPages := Some 1\<rparr>)) [homePage]))
      = Some 2"
  by (simp add: sample_defs)

section \<open>Routing\<close>





section \<open>Links the URL constructor rejects\<close>





section \<open>Pattern compilation\<close>

lemma isListingUrl_throws_iff:
  "isListingUrl js u ps = Inl SyntaxError \<longleftrightarrow>
     (\<exists>as p bs. ps = as @ p # bs \<and> RegExp js p = None \<and>
        (\<forall>a \<in> set as. \<exists>t. RegExp js a = Some t \<and> \<not> t u))"
proof (induction ps)
  case Nil
  then show ?case by simp
next
  case (Cons q qs)
  show ?case
  proof (cases "RegExp js q")
    case None
    then have "q # qs = [] @ q # qs \<and> RegExp js q = None \<and>
        (\<forall>a \<in> set []. \<exists>t. RegExp js a = Some t \<and> \<not> t u)" by simp
    then have "\<exists>as p bs. q # qs = as @ p # bs \<and> RegExp js p = None \<and>
        (\<forall>a \<in> set as. \<exists>t. RegExp js a = Some t \<and> \<not> t u)" by blast
    with None show ?thesis by simp
  next
    case (Some t)
    have split: "(\<exists>as p bs. q # qs = as @ p # bs \<and> RegExp js p = None \<and>
                    (\<forall>a \<in> set as. \<exists>t. RegExp js a = Some t \<and> \<not> t u))
             \<longleftrightarrow> (\<not> t u \<and> (\<exists>as p bs. qs = as @ p # bs \<and> RegExp js p = None \<and>
                    (\<forall>a \<in> set as. \<exists>t. RegExp js a = Some t \<and> \<not> t u)))"
      (is "?L \<longleftrightarrow> ?R")
    proof
      assume ?L
      then obtain as p bs where e: "q # qs = as @ p # bs" and n: "RegExp js p = None"
        and a: "\<forall>a \<in> set as. \<exists>t. RegExp js a = Some t \<and> \<not> t u" by blast
      from e n Some obtain as' where as: "as = q # as'" and qs: "qs = as' @ p # bs"
        by (cases as) auto
      from a as Some have "\<not> t u" by auto
      moreover from a as have "\<forall>a \<in> set as'. \<exists>t. RegExp js a = Some t \<and> \<not> t u" by simp
      ultimately show ?R using qs n by blast
    next
      assume r: ?R
      then obtain as p bs where qs: "qs = as @ p # bs" and n: "RegExp js p = None"
        and a: "\<forall>a \<in> set as. \<exists>t. RegExp js a = Some t \<and> \<not> t u" by blast
      from r Some a have "\<forall>a \<in> set (q # as). \<exists>t. RegExp js a = Some t \<and> \<not> t u" by simp
      moreover from qs have "q # qs = (q # as) @ p # bs" by simp
      ultimately show ?L using n by blast
    qed
    from Some Cons.IH show ?thesis unfolding split by simp
  qed
qed

text \<open>
  C5, as the code has it. The constructor keeps the pattern strings as they are and
  compiles none of them. A listing pattern is compiled each time a classification
  reaches it: classifying a URL ends in a SyntaxError exactly when the list has a
  pattern the \<^verbatim>\<open>RegExp\<close> constructor rejects and no pattern before it matches the
  URL. The product patterns are never compiled: a crawl gives the same results
  whatever they are.
\<close>

theorem patterns_are_compiled_per_url:
  "(isListingUrl js u ps = Inl SyntaxError \<longleftrightarrow>
      (\<exists>as p bs. ps = as @ p # bs \<and> RegExp js p = None \<and>
         (\<forall>a \<in> set as. \<exists>t. RegExp js a = Some t \<and> \<not> t u)))
   \<and> productListingUrlPatterns (config (constructor cfg)) = productListingUrlPatterns cfg
   \<and> productUrlPatterns (config (constructor cfg)) = productUrlPatterns cfg
   \<and> processedUrls (constructor cfg) = {}
   \<and> results (run js (constructor (cfg\<lparr>productUrlPatterns := qs\<rparr>)) ctxs) = results (run js (constructor cfg) ctxs)"
proof -
  have "fst (crawl js (constructor (cfg\<lparr>productUrlPatterns := qs\<rparr>)) ctxs) = fst (crawl js (constructor cfg) ctxs) \<and>
     processedUrls (snd (crawl js (constructor (cfg\<lparr>productUrlPatterns := qs\<rparr>)) ctxs))
       = processedUrls (snd (crawl js (constructor cfg) ctxs))"
    by (rule crawl_cong) (simp_all add: constructor_def)
  with isListingUrl_throws_iff [of js u ps] show ?thesis
    by (simp add: run_def constructor_def)
qed

text \<open>
  On the sample: with the unterminated group \<^verbatim>\<open>(\<close> after the listing pattern, the
  help page's URL, which the listing pattern does not match, ends in the SyntaxError;
  the sale listing's URL, which it matches, does not.
\<close>

theorem patterns_are_compiled_per_url_witness:
  "RegExp sample_js ''('' = None
   \<and> RegExp sample_js ''^https://www.ajio.com/.*/c/'' \<noteq> None
   \<and> isListingUrl sample_js ''https://www.ajio.com/help'' [''^https://www.ajio.com/.*/c/'', ''(''] = Inl SyntaxError
   \<and> isListingUrl sample_js ''https://www.ajio.com/shop/sale/c/123'' [''^https://www.ajio.com/.*/c/'', ''(''] = Inr True"
proof -
  let ?p = "''^https://www.ajio.com/.*/c/''"
  let ?u = "''https://www.ajio.com/help''"
  have h1: "RegExp sample_js ''('' = None"
    by (simp add: sample_defs)
  obtain t where h2: "RegExp sample_js ?p = Some t" and h3: "\<not> t ?u"
    by (simp add: sample_defs)
  have "[?p, ''(''] = [?p] @ ''('' # [] \<and> RegExp sample_js ''('' = None \<and>
        (\<forall>a \<in> set [?p]. \<exists>t. RegExp sample_js a = Some t \<and> \<not> t ?u)"
    using h1 h2 h3 by simp
  then have "\<exists>as p bs. [?p, ''(''] = as @ p # bs \<and> RegExp sample_js p = None \<and>
        (\<forall>a \<in> set as. \<exists>t. RegExp sample_js a = Some t \<and> \<not> t ?u)"
    by blast
  with patterns_are_compiled_per_url [of sample_js ?u "[?p, ''('']"]
  have c: "isListingUrl sample_js ?u [?p, ''(''] = Inl SyntaxError"
    by blast
  have d: "isListingUrl sample_js ''https://www.ajio.com/shop/sale/c/123'' [?p, ''(''] = Inr True"
    by (simp add: sample_defs)
  from h1 h2 c d show ?thesis by simp
qed

text \<open>
  A configuration with the invalid pattern is constructed as it is; the error comes
  when the home page's handler classifies the help link, and ends that handler.
\<close>

theorem pattern_compilation_counterexample:
  "RegExp sample_js ''('' = None
   \<and> productListingUrlPatterns
        (config (constructor (sampleConfig\<lparr>productListingUrlPatterns := [''^https://www.ajio.com/.*/c/'', ''('']\<rparr>)))
      = [''^https://www.ajio.com/.*/c/'', ''('']
   \<and> results (run sample_js
        (constructor (sampleConfig\<lparr>productListingUrlPatterns := [''^https://www.ajio.com/.*/c/'', ''('']\<rparr>))
        [homePage])
      = [\<lparr>thrown = Some SyntaxError, enqueued = [], logged = []\<rparr>]"
  by (simp add: sample_defs)

section \<open>Extraction\<close>

text \<open>
  C6, as the code has it. For a request labelled \<^verbatim>\<open>detail\<close> whose page can be
  evaluated, the handler queries the fixed selector \<^verbatim>\<open>.rilrtl-products-list__item\<close>,
  whatever the configuration's \<open>productCardSelectors\<close> are, and logs one record per
  matched card, in document order: the link is the href of the card's first anchor, and
  null when the card has no anchor or the href is empty. No card gives no record.
  The handler throws nothing, hands nothing to the engine and leaves the crawler object
  as it was.
\<close>

theorem extraction_reads_fixed_selector:
  assumes "requestLabel ctx = Some ''detail''" and "page ctx = Some doc"
  shows "router js this ctx =
           (\<lparr>thrown = None, enqueued = [],
             logged = [InfoProcessing (loadedUrl ctx), InfoExtracted (extractProducts doc)]\<rparr>, this)
   \<and> length (extractProducts doc) = length (doc ''.rilrtl-products-list__item'')
   \<and> (\<forall>i < length (doc ''.rilrtl-products-list__item'').
         link (extractProducts doc ! i) =
           (case anchors (doc ''.rilrtl-products-list__item'' ! i) of
              [] \<Rightarrow> None
            | href # others \<Rightarrow> if href = [] then None else Some href))
   \<and> (doc ''.rilrtl-products-list__item'' = [] \<longrightarrow> extractProducts doc = [])"
proof -
  have q: "querySelector_a_href card = (case anchors card of [] \<Rightarrow> None | href # others \<Rightarrow> Some href)"
    for card
    by (cases card rule: querySelector_a_href.cases) simp_all
  have "link (extractProducts doc ! i) =
          (case anchors (doc ''.rilrtl-products-list__item'' ! i) of
             [] \<Rightarrow> None
           | href # others \<Rightarrow> if href = [] then None else Some href)"
    if "i < length (doc ''.rilrtl-products-list__item'')" for i
    using that by (simp add: extractProducts_def q split: list.split)
  with assms show ?thesis
    by (simp add: router_def detailHandler_def extractProducts_def)
qed

text \<open>
  On the sample: three cards under the fixed selector, the first with two anchors, the
  second with none, the third with an empty href.
\<close>

theorem extraction_reads_fixed_selector_witness:
  "router sample_js (constructor sampleConfig) (listPage\<lparr>page := Some itemCards\<rparr>) =
     (\<lparr>thrown = None, enqueued = [],
       logged = [InfoProcessing (Some ''https://www.ajio.com/shop/sale/c/123''),
                 InfoExtracted [\<lparr>link = Some ''https://www.ajio.com/p/1''\<rparr>, \<lparr>link = None\<rparr>, \<lparr>link = None\<rparr>]]\<rparr>,
      constructor sampleConfig)"
proof -
  have h1: "requestLabel (listPage\<lparr>page := Some itemCards\<rparr>) = Some ''detail''"
    by (simp add: listPage_def)
  have h2: "page (listPage\<lparr>page := Some itemCards\<rparr>) = Some itemCards"
    by simp
  have e: "extractProducts itemCards = [\<lparr>link = Some ''https://www.ajio.com/p/1''\<rparr>, \<lparr>link = None\<rparr>, \<lparr>link = None\<rparr>]"
    by (simp add: extractProducts_def itemCards_def)
  from extraction_reads_fixed_selector [OF h1 h2, of sample_js "constructor sampleConfig"] e
  show ?thesis by (simp add: listPage_def)
qed

text \<open>
  A page with two cards under the configured selector \<^verbatim>\<open>.product-base\<close> and none
  under the fixed one gives no record.
\<close>

theorem extraction_counterexample:
  "concat (map productBaseCards (productCardSelectors (config (constructor sampleConfig))))
     = [Element [''https://www.ajio.com/p/1''], Element []]
   \<and> logged (fst (router sample_js (constructor sampleConfig) listPage))
     = [InfoProcessing (Some ''https://www.ajio.com/shop/sale/c/123''), InfoExtracted []]"
  by (simp add: sample_defs)

section \<open>Normalisation\<close>




section \<open>The product patterns\<close>

text \<open>
  C8. No enqueue decision reads the product patterns: two runs whose configurations
  differ in \<open>productUrlPatterns\<close> only, on the same pages with the same links, give the
  engine the same options and seeds, hand it the same requests under the same labels in
  every handler invocation, and end with the same set.
\<close>

theorem detail_patterns_do_not_interfere:
  "crawlerOptions (run js (constructor (cfg\<lparr>productUrlPatterns := ps\<rparr>)) ctxs)
     = crawlerOptions (run js (constructor cfg) ctxs)
   \<and> seeds (run js (constructor (cfg\<lparr>productUrlPatterns := ps\<rparr>)) ctxs)
     = seeds (run js (constructor cfg) ctxs)
   \<and> results (run js (constructor (cfg\<lparr>productUrlPatterns := ps\<rparr>)) ctxs)
     = results (run js (constructor cfg) ctxs)
   \<and> processedUrls (final (run js (constructor (cfg\<lparr>productUrlPatterns := ps\<rparr>)) ctxs))
     = processedUrls (final (run js (constructor cfg) ctxs))"
proof -
  have c: "fst (crawl js (constructor (cfg\<lparr>productUrlPatterns := ps\<rparr>)) ctxs)
             = fst (crawl js (constructor cfg) ctxs) \<and>
     processedUrls (snd (crawl js (constructor (cfg\<lparr>productUrlPatterns := ps\<rparr>)) ctxs))
       = processedUrls (snd (crawl js (constructor cfg) ctxs))"
    by (rule crawl_cong) (simp_all add: constructor_def)
  then show ?thesis by (simp add: run_def constructor_def)
qed

section \<open>Seeds\<close>

lemma crawl_append:
  "crawl js this (ctxs @ [ctx]) =
     (fst (crawl js this ctxs) @ [fst (router js (snd (crawl js this ctxs)) ctx)],
      snd (router js (snd (crawl js this ctxs)) ctx))"
proof (induction ctxs arbitrary: this)
  case Nil
  then show ?case by (simp split: prod.split)
next
  case (Cons c ctxs)
  obtain res this1 where r: "router js this c = (res, this1)"
    by (cases "router js this c")
  from Cons.IH [of this1] r show ?case
    by (simp split: prod.split)
qed

text \<open>
  C10. \<^verbatim>\<open>run\<close> gives the engine the configured \<open>startUrls\<close> as they are, and the
  set is empty when the crawl begins and holds forms of links found on crawled pages
  only. So being a seed keeps no URL from being claimed: when a page given to the
  default handler has a link that resolves to a seed, the seed's form matches a listing
  pattern, no page crawled before had a link of that form and no other link of the page
  has it, and the handler does not throw, then the handler returns the seed's request
  under the label \<^verbatim>\<open>detail\<close> and inserts the seed's form into the set, which did not
  hold it before. The run has then handed the URL to the engine twice: as a seed and as
  a claimed link.
\<close>

theorem seeds_bypass_the_pipeline:
  assumes "s \<in> set (startUrls cfg)"
    and "requestLabel ctx \<noteq> Some ''detail''" and "loadedUrl ctx = Some b" and "b \<noteq> []"
    and "s \<in> set (extractUrlsFromPage js b (pageLinks ctx))"
    and "\<forall>u \<in> set (extractUrlsFromPage js b (pageLinks ctx)).
           normalizeUrl js u b = normalizeUrl js s b \<longrightarrow> u = s"
    and "normalizeUrl js s b \<notin> (\<Union>c \<in> set ctxs. linkForms js c)"
    and "isListingUrl js (normalizeUrl js s b) (productListingUrlPatterns cfg) = Inr True"
    and "thrown (fst (router js (final (run js (constructor cfg) ctxs)) ctx)) = None"
  shows "seeds (run js (constructor cfg) (ctxs @ [ctx])) = startUrls cfg
   \<and> s \<in> set (seeds (run js (constructor cfg) (ctxs @ [ctx])))
   \<and> processedUrls (constructor cfg) = {}
   \<and> normalizeUrl js s b \<notin> processedUrls (final (run js (constructor cfg) ctxs))
   \<and> \<lparr>url = s, label = Some ''detail''\<rparr>
       \<in> set (enqueued (last (results (run js (constructor cfg) (ctxs @ [ctx])))))
   \<and> normalizeUrl js s b \<in> processedUrls (final (run js (constructor cfg) (ctxs @ [ctx])))"
proof -
  let ?before = "snd (crawl js (constructor cfg) ctxs)"
  let ?f = "normalizeUrl js s b"
  let ?urls = "extractUrlsFromPage js b (pageLinks ctx)"
  let ?reqs = "map (\<lambda>u. \<lparr>url = u, label = Some ''detail''\<rparr>) ?urls"
  have seeds: "seeds (run js (constructor cfg) (ctxs @ [ctx])) = startUrls cfg"
    by (simp add: run_def constructor_def)
  have empty: "processedUrls (constructor cfg) = {}"
    by (simp add: constructor_def)
  have bound: "processedUrls ?before \<subseteq> (\<Union>c \<in> set ctxs. linkForms js c)"
    using crawl_bound [of js "constructor cfg" ctxs] by (simp add: constructor_def)
  with assms(7) have fresh: "?f \<notin> processedUrls ?before" by blast
  have pats: "productListingUrlPatterns (config ?before) = productListingUrlPatterns cfg"
    using crawl_fields [of js "constructor cfg" ctxs] by (simp add: constructor_def)
  obtain y this1 where m: "mapTransform js b ?before ?reqs = (y, this1)"
    by (cases "mapTransform js b ?before ?reqs")
  from assms(2,3,4,9) m obtain kept where y: "y = Inr kept"
    by (cases y) (simp_all add: run_def router_def defaultHandler_def enqueueLinks_def)
  from assms(2,3,4) m y
  have r: "router js ?before ctx = (\<lparr>thrown = None, enqueued = kept, logged = []\<rparr>, this1)"
    by (simp add: router_def defaultHandler_def enqueueLinks_def)
  from mapTransform_kept [of js b ?before ?reqs kept this1] m y
  have k: "set (map (\<lambda>r. normalizeUrl js (url r) b) kept) =
            {u \<in> (\<lambda>r. normalizeUrl js (url r) b) ` set ?reqs.
               isListingUrl js u (productListingUrlPatterns (config ?before)) = Inr True}
            - processedUrls ?before"
    and p: "processedUrls this1 = processedUrls ?before \<union> set (map (\<lambda>r. normalizeUrl js (url r) b) kept)"
    and sub: "set kept \<subseteq> set ?reqs"
    by simp_all
  have "?f \<in> (\<lambda>r. normalizeUrl js (url r) b) ` set ?reqs"
    using assms(5) by (auto simp: image_image)
  with k fresh assms(8) pats have informs: "?f \<in> set (map (\<lambda>r. normalizeUrl js (url r) b) kept)"
    by simp
  then obtain q where q: "q \<in> set kept" and qf: "normalizeUrl js (url q) b = ?f"
    by auto
  from q sub obtain u where u: "u \<in> set ?urls" and qu: "q = \<lparr>url = u, label = Some ''detail''\<rparr>"
    by auto
  from qf qu have "normalizeUrl js u b = ?f" by simp
  with assms(6) u have "u = s" by blast
  with q qu have member: "\<lparr>url = s, label = Some ''detail''\<rparr> \<in> set kept" by simp
  from informs p have after: "?f \<in> processedUrls this1" by simp
  have last: "last (results (run js (constructor cfg) (ctxs @ [ctx]))) = \<lparr>thrown = None, enqueued = kept, logged = []\<rparr>"
    and final: "final (run js (constructor cfg) (ctxs @ [ctx])) = this1"
    using r by (simp_all add: run_def crawl_append)
  from seeds assms(1) empty fresh member after show ?thesis
    unfolding last final by (simp add: run_def)
qed

text \<open>
  On the sample with its two seeds: the home page links to the sale listing, which is
  a seed; the handler returns its request and inserts its form.
\<close>

theorem seeds_bypass_the_pipeline_witness:
  "''https://www.ajio.com/shop/sale/c/123'' \<in> set (startUrls twoSeeds)
   \<and> ''https://www.ajio.com/shop/sale/c/123''
       \<in> set (extractUrlsFromPage sample_js ''https://www.ajio.com/'' (pageLinks homePage))
   \<and> thrown (fst (router sample_js (final (run sample_js (constructor twoSeeds) [])) homePage)) = None
   \<and> ''https://www.ajio.com/shop/sale/c/123'' \<in> set (seeds (run sample_js (constructor twoSeeds) ([] @ [homePage])))
   \<and> \<lparr>url = ''https://www.ajio.com/shop/sale/c/123'', label = Some ''detail''\<rparr>
       \<in> set (enqueued (last (results (run sample_js (constructor twoSeeds) ([] @ [homePage])))))
   \<and> ''https://www.ajio.com/shop/sale/c/123''
       \<in> processedUrls (final (run sample_js (constructor twoSeeds) ([] @ [homePage])))"
proof -
  let ?s = "''https://www.ajio.com/shop/sale/c/123''"
  let ?b = "''https://www.ajio.com/''"
  have n: "normalizeUrl sample_js ?s ?b = ?s"
    by (simp add: sample_defs)
  have h1: "?s \<in> set (startUrls twoSeeds)"
    by (simp add: twoSeeds_def sampleConfig_def)
  have h2: "requestLabel homePage \<noteq> Some ''detail''" and h3: "loadedUrl homePage = Some ?b"
    and h4: "?b \<noteq> []"
    by (simp_all add: homePage_def)
  have h5: "?s \<in> set (extractUrlsFromPage sample_js ?b (pageLinks homePage))"
    by (simp add: sample_defs)
  have h6: "\<forall>u \<in> set (extractUrlsFromPage sample_js ?b (pageLinks homePage)).
              normalizeUrl sample_js u ?b = normalizeUrl sample_js ?s ?b \<longrightarrow> u = ?s"
    by (simp add: sample_defs)
  have h7: "normalizeUrl sample_js ?s ?b \<notin> (\<Union>c \<in> set []. linkForms sample_js c)"
    by simp
  have h8: "isListingUrl sample_js (normalizeUrl sample_js ?s ?b) (productListingUrlPatterns twoSeeds) = Inr True"
    by (simp add: sample_defs twoSeeds_def)
  have h9: "thrown (fst (router sample_js (final (run sample_js (constructor twoSeeds) [])) homePage)) = None"
    by (simp add: sample_defs twoSeeds_def)
  from seeds_bypass_the_pipeline [OF h1 h2 h3 h4 h5 h6 h7 h8 h9] n h1 h5 h9
  show ?thesis by simp
qed

end
